theory Spec2Isabelle
  imports
    Main
    "HOL-Library.Char_ord"
    "HOL-Library.List_Lexorder"
    "HOL-Library.Multiset"
    "HOL-Library.Sublist"
begin

section \<open>Strings\<close>

text \<open>
  Python strings are modelled as \<open>string\<close>. The text that reaches the entity code was
  reduced to ASCII by \<open>get_cfp\<close>, so a character is a byte. \<open>py_isspace\<close> lists the
  ASCII characters that \<open>str.strip()\<close> removes: tab, line feed, vertical tab, form feed,
  carriage return, the four separators 28 to 31 and the space.
\<close>

definition py_isspace :: "char \<Rightarrow> bool" where
  "py_isspace c = (of_char c \<in> {9, 10, 11, 12, 13, 28, 29, 30, 31, 32 :: nat})"

definition strip :: "string \<Rightarrow> string" where
  "strip s = rev (dropWhile py_isspace (rev (dropWhile py_isspace s)))"

text \<open>\<open>sep.join(xs)\<close>\<close>

fun py_join :: "string \<Rightarrow> string list \<Rightarrow> string" where
  "py_join sep [] = []"
| "py_join sep [x] = x"
| "py_join sep (x # y # ys) = x @ sep @ py_join sep (y # ys)"

section \<open>The entity chunker of \<open>stanford_ner\<close>\<close>

text \<open>
  A row of \<open>ne_chunks\<close> is the triple (token, category, IOB marker) that
  \<open>tree2conlltags\<close> returns; an entity is the two-element list \<open>[ent, ent_type]\<close>.
\<close>

type_synonym conll = "string \<times> string \<times> string"
type_synonym entity = "string \<times> string"

definition tok :: "conll \<Rightarrow> string" where
  "tok chunk = fst chunk"

definition cat :: "conll \<Rightarrow> string" where
  "cat chunk = fst (snd chunk)"

definition iob :: "conll \<Rightarrow> string" where
  "iob chunk = snd (snd chunk)"

text \<open>
  The inner loop \<open>for chunkseq in ne_chunks[i+1:]\<close>: the first \<open>if\<close> appends an
  \<open>I-Tag\<close> token, the second one leaves the loop at any other marker.
\<close>

fun merge_itags :: "string \<Rightarrow> conll list \<Rightarrow> string" where
  "merge_itags ent [] = ent"
| "merge_itags ent (chunkseq # rest) =
     (let ent' = (if iob chunkseq = ''I-Tag'' then ent @ '' '' @ strip (tok chunkseq) else ent)
      in if iob chunkseq \<noteq> ''I-Tag'' then ent' else merge_itags ent' rest)"

text \<open>The body of the outer loop, for the pair \<open>(i, chunk)\<close> that \<open>enumerate\<close> yields.\<close>

definition chunk_step :: "conll list \<Rightarrow> entity list \<Rightarrow> nat \<times> conll \<Rightarrow> entity list" where
  "chunk_step ne_chunks result ic =
     (case ic of (i, chunk) \<Rightarrow>
        if iob chunk = ''B-Tag'' then
          (let ent_type = cat chunk;
               ent = merge_itags (strip (tok chunk)) (drop (i + 1) ne_chunks);
               ent_type' = (if ent_type = ''ORGANIZATION'' then ''ORG'' else ent_type)
           in result @ [(ent, ent_type')])
        else result)"

definition stanford_chunks :: "conll list \<Rightarrow> entity list" where
  "stanford_chunks ne_chunks = foldl (chunk_step ne_chunks) [] (enumerate 0 ne_chunks)"

text \<open>
  Modelled from the spec: the IOB chunking rule. The rows of \<open>ne_chunks\<close> come from the
  chunk parser built from the grammar \<open>Tag: {<ORGANIZATION|PERSON.*>+}\<close> and from
  \<open>tree2conlltags\<close>, both of a library that is not part of the repository. The rule
  groups every maximal run of tokens whose tag is \<open>ORGANIZATION\<close> or starts with
  \<open>PERSON\<close> into one chunk; the first row of a chunk is marked \<open>B-Tag\<close>, the
  others \<open>I-Tag\<close>, and a row outside every chunk \<open>O\<close>. The flag says whether the
  previous token was in a chunk.
\<close>

definition tag_matches :: "string \<Rightarrow> bool" where
  "tag_matches t = (t = ''ORGANIZATION'' \<or> prefix ''PERSON'' t)"

fun iob_tags :: "bool \<Rightarrow> (string \<times> string) list \<Rightarrow> conll list" where
  "iob_tags inside [] = []"
| "iob_tags inside ((w, t) # rest) =
     (if tag_matches t
      then (w, t, if inside then ''I-Tag'' else ''B-Tag'') # iob_tags True rest
      else (w, t, ''O'') # iob_tags False rest)"

text \<open>
  Modelled from the spec: the label set of the token tagger. The tagger is built from
  the classifier file \<open>english.muc.7class.distsim.crf.ser.gz\<close>, which is not part of the
  repository; the specification calls its categories a small fixed label set. The
  seven classes of that model and the label of a token outside every class:
\<close>

definition tagger_labels :: "string list" where
  "tagger_labels =
     [''PERSON'', ''ORGANIZATION'', ''LOCATION'', ''DATE'', ''TIME'', ''MONEY'', ''PERCENT'',
      ''O'']"

text \<open>
  \<open>stanford_ner\<close>, from the output \<open>ne_tokenchunks\<close> of the token tagger on: the
  tagger is a collaborator of the program and its output is the parameter.
\<close>

definition stanford_ner :: "(string \<times> string) list \<Rightarrow> entity list" where
  "stanford_ner ne_tokenchunks = stanford_chunks (iob_tags False ne_tokenchunks)"

section \<open>The filter of \<open>spacy_ner\<close>\<close>

text \<open>
  A span of \<open>nlp(cfp).ents\<close> is the pair of its \<open>text\<close> and its \<open>label_\<close>; the
  loop keeps the spans labelled \<open>ORG\<close> or \<open>PERSON\<close>.
\<close>

fun spacy_loop :: "entity list \<Rightarrow> (string \<times> string) list \<Rightarrow> entity list" where
  "spacy_loop result [] = result"
| "spacy_loop result (chunk # rest) =
     (if snd chunk = ''ORG'' \<or> snd chunk = ''PERSON''
      then spacy_loop (result @ [(strip (fst chunk), snd chunk)]) rest
      else spacy_loop result rest)"

definition spacy_ner :: "(string \<times> string) list \<Rightarrow> entity list" where
  "spacy_ner ne_chunks = spacy_loop [] ne_chunks"

section \<open>The output step\<close>

text \<open>
  The loop over \<open>result\<close> with its two independent tests, then the two in-place sorts.
  Python compares strings code point by code point, a proper prefix first: the
  lexicographic order of \<open>string\<close>.
\<close>

fun partition_loop ::
  "string list \<times> string list \<Rightarrow> entity list \<Rightarrow> string list \<times> string list" where
  "partition_loop (names, affiliations) [] = (names, affiliations)"
| "partition_loop (names, affiliations) (entity # rest) =
     (let affiliations' =
            (if snd entity = ''ORG'' then affiliations @ [fst entity] else affiliations);
          names' = (if snd entity = ''PERSON'' then names @ [fst entity] else names)
      in partition_loop (names', affiliations') rest)"

definition output_lists :: "entity list \<Rightarrow> string list \<times> string list" where
  "output_lists result =
     (case partition_loop ([], []) result of
        (names, affiliations) \<Rightarrow> (sort names, sort affiliations))"

section \<open>The program\<close>

text \<open>
  What the process leaves behind: it exits with a status after writing to standard
  output, or it dies of an exception that nothing catches.
\<close>

datatype outcome = Exited nat string | Uncaught

text \<open>
  The exit status and the standard output of an outcome. An exception that nothing
  catches ends the interpreter with status 1, the traceback goes to the error stream;
  in this program it can only happen before the first \<open>print\<close>.
\<close>

fun exit_status :: "outcome \<Rightarrow> nat" where
  "exit_status (Exited status out) = status"
| "exit_status Uncaught = 1"

fun stdout_of :: "outcome \<Rightarrow> string" where
  "stdout_of (Exited status out) = out"
| "stdout_of Uncaught = []"

definition newline :: string where
  "newline = [CHR 0x0A]"

text \<open>\<open>print(a, b, ...)\<close>: the arguments separated by a space, then a line feed.\<close>

definition py_print :: "string list \<Rightarrow> string" where
  "py_print args = py_join '' '' args @ newline"

text \<open>The six components of the named tuple that \<open>urlparse\<close> returns.\<close>

record ParseResult =
  scheme :: string
  netloc :: string
  path :: string
  params :: string
  query :: string
  fragment :: string

definition as_tuple :: "ParseResult \<Rightarrow> string list" where
  "as_tuple url = [scheme url, netloc url, path url, params url, query url, fragment url]"

text \<open>\<open>x in t\<close> on a tuple: some component equals \<open>x\<close>.\<close>

fun py_in :: "'a \<Rightarrow> 'a list \<Rightarrow> bool" where
  "py_in x [] = False"
| "py_in x (y # ys) = (y = x \<or> py_in x ys)"

text \<open>
  The validity check of the main block: \<open>Some\<close> the outcome when it ends the program,
  \<open>None\<close> when the program goes on.
\<close>

definition url_check :: "ParseResult \<Rightarrow> outcome option" where
  "url_check url =
     (if \<not> py_in ''wikicfp.com'' (as_tuple url)
      then Some (Exited 0 (py_print [''Please enter a valid URL'']))
      else None)"

text \<open>
  What the request and the lookup of the \<open>div\<close> of class \<open>cfp\<close> give: the request or
  the parser raises, the page has no such \<open>div\<close> (\<open>find\<close> returns \<open>None\<close> and the call
  of \<open>find_all\<close> on it raises \<open>AttributeError\<close>), or the text nodes of the \<open>div\<close>.
\<close>

datatype page = RequestFailed | NoCfpDiv | CfpDiv "string list"

definition ascii_ignore :: "string \<Rightarrow> string" where
  "ascii_ignore s = filter (\<lambda>c. of_char c < (128 :: nat)) s"

definition replace_char :: "char \<Rightarrow> char \<Rightarrow> string \<Rightarrow> string" where
  "replace_char old new s = map (\<lambda>c. if c = old then new else c) s"

fun get_cfp :: "page \<Rightarrow> outcome + string" where
  "get_cfp RequestFailed = Inl Uncaught"
| "get_cfp NoCfpDiv = Inl (Exited 0 (py_print [''Please enter a valid URL'']))"
| "get_cfp (CfpDiv texts) =
     Inr (replace_char (CHR 0x09) CHR '' ''
           (replace_char (CHR 0x0A) CHR '' ''
             (strip (ascii_ignore (py_join '' '' texts)))))"

text \<open>
  The collaborators of the program: the page behind the parsed URL, the spans of the
  first engine and the tagged tokens of the second one for a text.
\<close>

record collaborators =
  page_of :: "ParseResult \<Rightarrow> page"
  spacy_ents :: "string \<Rightarrow> (string \<times> string) list"
  stanford_tags :: "string \<Rightarrow> (string \<times> string) list"

text \<open>
  The chunk parser of the library, which is not part of the repository, writes one
  line to standard output when \<open>stanford_ner\<close> hands it an empty token list.
\<close>

definition parse_warning :: "(string \<times> string) list \<Rightarrow> string" where
  "parse_warning ne_tokenchunks =
     (if ne_tokenchunks = [] then py_print [''Warning: parsing empty text''] else [])"

text \<open>
  The main block from the validity check on, for the result \<open>url\<close> of \<open>urlparse\<close>.
  \<open>run\<close> is what the chosen engine printed and the entities it returned.
\<close>

definition main_prog :: "collaborators \<Rightarrow> ParseResult \<Rightarrow> string \<Rightarrow> outcome" where
  "main_prog env url model =
     (case url_check url of
        Some out \<Rightarrow> out
      | None \<Rightarrow>
          (case get_cfp (page_of env url) of
             Inl out \<Rightarrow> out
           | Inr cfp \<Rightarrow>
               (let run = (if model = ''m1'' then ([], spacy_ner (spacy_ents env cfp))
                           else (parse_warning (stanford_tags env cfp),
                                 stanford_ner (stanford_tags env cfp)))
                in case output_lists (snd run) of
                     (names, affiliations) \<Rightarrow>
                       Exited 0
                         (fst run
                          @ py_print [''***Names***'' @ newline, py_join '' * '' names, newline]
                          @ py_print [''***Affiliations***'' @ newline,
                                      py_join '' * '' affiliations]))))"

text \<open>
  The main block from the call of \<open>urlparse\<close> on, for the argument of \<open>--url\<close>. The call
  is outside every \<open>try\<close>: when \<open>urlparse\<close> raises \<open>ValueError\<close> (\<open>None\<close> here) nothing
  catches it.
\<close>

definition main_cli ::
  "(string \<Rightarrow> ParseResult option) \<Rightarrow> collaborators \<Rightarrow> string \<Rightarrow> string \<Rightarrow> outcome" where
  "main_cli urlparse env url_arg model =
     (case urlparse url_arg of
        None \<Rightarrow> Uncaught
      | Some url \<Rightarrow> main_prog env url model)"

section \<open>Properties of the chunker\<close>

definition is_begin :: "conll \<Rightarrow> bool" where
  "is_begin chunk = (iob chunk = ''B-Tag'')"

definition is_inside :: "conll \<Rightarrow> bool" where
  "is_inside chunk = (iob chunk = ''I-Tag'')"

text \<open>The entity that the loop body builds for a begin row followed by \<open>rest\<close>.\<close>

definition entity_of :: "conll \<Rightarrow> conll list \<Rightarrow> entity" where
  "entity_of chunk rest =
     (merge_itags (strip (tok chunk)) rest,
      if cat chunk = ''ORGANIZATION'' then ''ORG'' else cat chunk)"

text \<open>
  Walking back from a row through the rows marked \<open>I-Tag\<close> just before it, the first
  row with another marker is a begin row. \<open>pre\<close> is the input before the row.
\<close>

definition preceded_by_begin :: "conll list \<Rightarrow> bool" where
  "preceded_by_begin pre =
     (case dropWhile is_inside (rev pre) of [] \<Rightarrow> False | p # _ \<Rightarrow> is_begin p)"

text \<open>The category that the chunker emits for a raw category.\<close>

definition emitted_type :: "string \<Rightarrow> string" where
  "emitted_type ent_type = (if ent_type = ''ORGANIZATION'' then ''ORG'' else ent_type)"

text \<open>The surface text of the run of rows \<open>chunks\<close>: the stripped tokens, joined by a space.\<close>

definition run_text :: "conll list \<Rightarrow> string" where
  "run_text chunks = py_join '' '' (map (strip \<circ> tok) chunks)"

subsection \<open>The loops as recursion over the rows\<close>

lemma chunk_step_append:
  "chunk_step (pre @ c # cs) acc (length pre, c) =
     acc @ (if is_begin c then [entity_of c cs] else [])"
  by (simp add: chunk_step_def entity_of_def is_begin_def Let_def)

lemma foldl_chunk_step_shift:
  "foldl (chunk_step (pre @ cs)) acc (enumerate (length pre) cs) =
     acc @ foldl (chunk_step cs) [] (enumerate 0 cs)"
proof (induction cs arbitrary: pre acc)
  case Nil
  then show ?case by simp
next
  case (Cons c cs)
  have l: "foldl (chunk_step ((pre @ [c]) @ cs)) a (enumerate (length (pre @ [c])) cs) =
        a @ foldl (chunk_step cs) [] (enumerate 0 cs)" for a
    by (rule Cons.IH)
  have r: "foldl (chunk_step ([c] @ cs)) a (enumerate (length [c]) cs) =
        a @ foldl (chunk_step cs) [] (enumerate 0 cs)" for a
    by (rule Cons.IH)
  have s0: "chunk_step (c # cs) [] (0, c) = (if is_begin c then [entity_of c cs] else [])"
    using chunk_step_append [of "[]" c cs "[]"] by simp
  show ?case
    using l r by (simp add: chunk_step_append s0)
qed

lemma stanford_chunks_Nil: "stanford_chunks [] = []"
  by (simp add: stanford_chunks_def)

lemma stanford_chunks_Cons:
  "stanford_chunks (c # cs) =
     (if is_begin c then [entity_of c cs] else []) @ stanford_chunks cs"
proof -
  have s0: "chunk_step (c # cs) [] (0, c) = (if is_begin c then [entity_of c cs] else [])"
    using chunk_step_append [of "[]" c cs "[]"] by simp
  have "foldl (chunk_step ([c] @ cs)) a (enumerate (length [c]) cs) =
        a @ foldl (chunk_step cs) [] (enumerate 0 cs)" for a
    by (rule foldl_chunk_step_shift)
  then show ?thesis
    by (simp add: stanford_chunks_def s0)
qed

text \<open>
  C1. The chunker returns as many entities as the input has rows marked \<open>B-Tag\<close>.
  So an input with no such row gives the empty list, and one begin row alone, with no
  inside row after it, gives one entity.
\<close>

theorem chunker_count_begin:
  "length (stanford_chunks ne_chunks) =
     length (filter (\<lambda>chunk. iob chunk = ''B-Tag'') ne_chunks)
   \<and> (filter (\<lambda>chunk. iob chunk = ''B-Tag'') ne_chunks = [] \<longrightarrow>
        stanford_chunks ne_chunks = [])
   \<and> length (stanford_chunks [(t, c, ''B-Tag'')]) = 1"
proof -
  have len: "length (stanford_chunks cs) = length (filter is_begin cs)" for cs
    by (induction cs) (simp_all add: stanford_chunks_Nil stanford_chunks_Cons)
  have one: "length (stanford_chunks [(t, c, ''B-Tag'')]) = 1"
    by (simp add: len is_begin_def iob_def)
  have "length (stanford_chunks ne_chunks) =
      length (filter (\<lambda>chunk. iob chunk = ''B-Tag'') ne_chunks)"
    using len [of ne_chunks] by (simp add: is_begin_def [abs_def])
  with one show ?thesis by auto
qed

theorem chunker_count_begin_witness:
  "filter (\<lambda>chunk. iob chunk = ''B-Tag'')
     [(''said'', ''O'', ''O''), (''Corp'', ''ORGANIZATION'', ''I-Tag'')] = []
   \<and> stanford_chunks [(''said'', ''O'', ''O''), (''Corp'', ''ORGANIZATION'', ''I-Tag'')] = []
   \<and> length (stanford_chunks [(''Acme'', ''ORGANIZATION'', ''B-Tag'')]) = 1"
proof -
  have h: "filter (\<lambda>chunk. iob chunk = ''B-Tag'')
      [(''said'', ''O'', ''O''), (''Corp'', ''ORGANIZATION'', ''I-Tag'')] = []"
    by (simp add: iob_def)
  show ?thesis
    using h chunker_count_begin
      [of "[(''said'', ''O'', ''O''), (''Corp'', ''ORGANIZATION'', ''I-Tag'')]"
          "''Acme''" "''ORGANIZATION''"]
    by simp
qed

subsection \<open>The text of an entity\<close>

lemma py_join_Cons: "py_join sep (x # xs) = x @ concat (map (\<lambda>y. sep @ y) xs)"
  by (induction xs arbitrary: x) simp_all

lemma merge_itags_concat:
  "merge_itags ent rest =
     ent @ concat (map (\<lambda>c. '' '' @ strip (tok c)) (takeWhile is_inside rest))"
  by (induction rest arbitrary: ent) (simp_all add: is_inside_def Let_def)

lemma merge_itags_run_text:
  "merge_itags (strip (tok c)) rest = run_text (c # takeWhile is_inside rest)"
  by (simp add: merge_itags_concat py_join_Cons run_text_def comp_def)

lemma entity_of_run:
  "entity_of c rest = (run_text (c # takeWhile is_inside rest), emitted_type (cat c))"
  by (simp add: entity_of_def merge_itags_run_text emitted_type_def)

lemma upt_0_Suc: "[0..<Suc n] = 0 # map Suc [0..<n]"
  by (simp add: upt_conv_Cons map_Suc_upt del: upt_Suc)

lemma stanford_chunks_index:
  "stanford_chunks cs =
     map (\<lambda>i. entity_of (cs ! i) (drop (Suc i) cs))
       (filter (\<lambda>i. is_begin (cs ! i)) [0..<length cs])"
proof (induction cs)
  case Nil
  then show ?case by (simp add: stanford_chunks_Nil)
next
  case (Cons c cs)
  show ?case
    by (simp add: stanford_chunks_Cons Cons.IH upt_0_Suc filter_map comp_def del: upt_Suc)
qed

lemma begin_not_inside: "is_begin c \<Longrightarrow> \<not> is_inside c"
  by (auto simp add: is_begin_def is_inside_def)

lemma takeWhile_inside_stop:
  "\<not> is_inside b \<Longrightarrow> takeWhile is_inside (pre @ b # rest) = takeWhile is_inside pre"
  by (induction pre) simp_all

lemma stanford_chunks_split:
  "\<not> is_inside b \<Longrightarrow>
     stanford_chunks (pre @ b # rest) = stanford_chunks pre @ stanford_chunks (b # rest)"
proof (induction pre)
  case Nil
  then show ?case by (simp add: stanford_chunks_Nil)
next
  case (Cons p pre)
  have "takeWhile is_inside (pre @ b # rest) = takeWhile is_inside pre"
    using Cons.prems by (rule takeWhile_inside_stop)
  then have "entity_of p (pre @ b # rest) = entity_of p pre"
    by (simp add: entity_of_run)
  then show ?case
    using Cons by (simp add: stanford_chunks_Cons)
qed

lemma stanford_chunks_inside_run:
  "\<forall>c\<in>set run. is_inside c \<Longrightarrow> stanford_chunks (run @ rest) = stanford_chunks rest"
  by (induction run) (auto simp add: stanford_chunks_Cons begin_not_inside)

text \<open>
  C2. The text of every entity that the chunker emits is made of a contiguous run of
  input rows, \<open>n\<close> rows from position \<open>i\<close> on, in their order: each token stripped of
  the white space around it, the tokens joined by one space. The run starts at a row
  marked \<open>B-Tag\<close>.
\<close>

theorem chunker_entity_text:
  "\<forall>e\<in>set (stanford_chunks ne_chunks).
     \<exists>i n. 0 < n \<and> i + n \<le> length ne_chunks \<and> iob (ne_chunks ! i) = ''B-Tag''
       \<and> fst e = py_join '' '' (map (strip \<circ> tok) (take n (drop i ne_chunks)))"
proof
  fix e
  assume "e \<in> set (stanford_chunks ne_chunks)"
  then obtain i where i: "i < length ne_chunks" and b: "is_begin (ne_chunks ! i)"
    and e: "e = entity_of (ne_chunks ! i) (drop (Suc i) ne_chunks)"
    by (auto simp add: stanford_chunks_index)
  define run where "run = takeWhile is_inside (drop (Suc i) ne_chunks)"
  have run_take: "run = take (length run) (drop (Suc i) ne_chunks)"
    unfolding run_def by (rule takeWhile_eq_take)
  have "length run \<le> length (drop (Suc i) ne_chunks)"
    unfolding run_def by (rule length_takeWhile_le)
  then have bound: "i + Suc (length run) \<le> length ne_chunks"
    using i by simp
  have "drop i ne_chunks = ne_chunks ! i # drop (Suc i) ne_chunks"
    using i by (simp add: Cons_nth_drop_Suc)
  then have "take (Suc (length run)) (drop i ne_chunks) = ne_chunks ! i # run"
    using run_take by simp
  then have "fst e =
      py_join '' '' (map (strip \<circ> tok) (take (Suc (length run)) (drop i ne_chunks)))"
    by (simp add: e entity_of_run run_def run_text_def)
  with bound b show "\<exists>i n. 0 < n \<and> i + n \<le> length ne_chunks
      \<and> iob (ne_chunks ! i) = ''B-Tag''
      \<and> fst e = py_join '' '' (map (strip \<circ> tok) (take n (drop i ne_chunks)))"
    unfolding is_begin_def by (intro exI [of _ i] exI [of _ "Suc (length run)"]) simp
qed

theorem chunker_entity_text_witness:
  "(''Acme Corp'', ''ORG'') \<in> set (stanford_chunks
       [(''said'', ''O'', ''O''), ('' Acme'', ''ORGANIZATION'', ''B-Tag''),
        (''Corp '', ''ORGANIZATION'', ''I-Tag''), (''today'', ''O'', ''O'')])
   \<and> (\<exists>i n. 0 < n
        \<and> i + n \<le> length [(''said'', ''O'', ''O''), ('' Acme'', ''ORGANIZATION'', ''B-Tag''),
              (''Corp '', ''ORGANIZATION'', ''I-Tag''), (''today'', ''O'', ''O'')]
        \<and> iob ([(''said'', ''O'', ''O''), ('' Acme'', ''ORGANIZATION'', ''B-Tag''),
              (''Corp '', ''ORGANIZATION'', ''I-Tag''), (''today'', ''O'', ''O'')] ! i) = ''B-Tag''
        \<and> ''Acme Corp'' = py_join '' '' (map (strip \<circ> tok) (take n (drop i
             [(''said'', ''O'', ''O''), ('' Acme'', ''ORGANIZATION'', ''B-Tag''),
              (''Corp '', ''ORGANIZATION'', ''I-Tag''), (''today'', ''O'', ''O'')]))))"
proof -
  let ?cs = "[(''said'', ''O'', ''O''), ('' Acme'', ''ORGANIZATION'', ''B-Tag''),
              (''Corp '', ''ORGANIZATION'', ''I-Tag''), (''today'', ''O'', ''O'')]"
  have m: "(''Acme Corp'', ''ORG'') \<in> set (stanford_chunks ?cs)"
    by code_simp
  from chunker_entity_text [of ?cs, rule_format, OF m] m show ?thesis
    by simp
qed

subsection \<open>The lookahead and the order of the entities\<close>

text \<open>
  C4. The chunker emits one entity for each position \<open>i\<close> of a row marked \<open>B-Tag\<close>,
  in increasing order of \<open>i\<close>; its text is made of the row at \<open>i\<close> and of the maximal
  run of rows marked \<open>I-Tag\<close> right after \<open>i\<close>, nothing more. The lookahead does not
  consume the row it stops at, and the outer scan goes on from \<open>i + 1\<close>: in an input
  \<open>pre @ b # run @ s # post\<close> with \<open>b\<close> a begin row, \<open>run\<close> inside rows and \<open>s\<close> any
  other row, the entities of \<open>pre\<close> come first, then the entity of \<open>b\<close> and \<open>run\<close>,
  then those of \<open>s # post\<close>, where \<open>s\<close> is scanned again as a row of its own.
\<close>

theorem chunker_lookahead:
  "stanford_chunks ne_chunks =
     map (\<lambda>i. (py_join '' '' (map (strip \<circ> tok)
                  (ne_chunks ! i # takeWhile (\<lambda>c. iob c = ''I-Tag'') (drop (i + 1) ne_chunks))),
                if cat (ne_chunks ! i) = ''ORGANIZATION'' then ''ORG'' else cat (ne_chunks ! i)))
       (filter (\<lambda>i. iob (ne_chunks ! i) = ''B-Tag'') [0..<length ne_chunks])
   \<and> (iob b = ''B-Tag'' \<and> (\<forall>c\<in>set run. iob c = ''I-Tag'') \<and> iob s \<noteq> ''I-Tag'' \<longrightarrow>
        stanford_chunks (pre @ b # run @ s # post) =
          stanford_chunks pre
          @ (py_join '' '' (map (strip \<circ> tok) (b # run)), if cat b = ''ORGANIZATION'' then ''ORG'' else cat b)
          # stanford_chunks (s # post))"
proof (intro conjI impI)
  show "stanford_chunks ne_chunks =
     map (\<lambda>i. (py_join '' '' (map (strip \<circ> tok)
                  (ne_chunks ! i # takeWhile (\<lambda>c. iob c = ''I-Tag'') (drop (i + 1) ne_chunks))),
                if cat (ne_chunks ! i) = ''ORGANIZATION'' then ''ORG'' else cat (ne_chunks ! i)))
       (filter (\<lambda>i. iob (ne_chunks ! i) = ''B-Tag'') [0..<length ne_chunks])"
    using stanford_chunks_index [of ne_chunks]
    by (simp add: entity_of_run run_text_def emitted_type_def is_inside_def [abs_def]
        is_begin_def)
next
  assume "iob b = ''B-Tag'' \<and> (\<forall>c\<in>set run. iob c = ''I-Tag'') \<and> iob s \<noteq> ''I-Tag''"
  then have b: "is_begin b" and r: "\<forall>c\<in>set run. is_inside c" and s: "\<not> is_inside s"
    by (simp_all add: is_begin_def is_inside_def)
  have "takeWhile is_inside (run @ s # post) = run"
    using r s by (simp add: takeWhile_append)
  then have e: "entity_of b (run @ s # post) =
      (py_join '' '' (map (strip \<circ> tok) (b # run)), if cat b = ''ORGANIZATION'' then ''ORG'' else cat b)"
    by (simp add: entity_of_run run_text_def emitted_type_def)
  have "stanford_chunks (pre @ b # run @ s # post) =
      stanford_chunks pre @ stanford_chunks (b # run @ s # post)"
    using b by (simp add: stanford_chunks_split begin_not_inside)
  also have "stanford_chunks (b # run @ s # post) =
      entity_of b (run @ s # post) # stanford_chunks (s # post)"
    using b r by (simp add: stanford_chunks_Cons stanford_chunks_inside_run)
  finally show "stanford_chunks (pre @ b # run @ s # post) =
      stanford_chunks pre
      @ (py_join '' '' (map (strip \<circ> tok) (b # run)), if cat b = ''ORGANIZATION'' then ''ORG'' else cat b)
      # stanford_chunks (s # post)"
    by (simp add: e)
qed

theorem chunker_lookahead_witness:
  "(iob (''Jane'', ''PERSON'', ''B-Tag'') = ''B-Tag''
    \<and> iob (''Doe'', ''PERSON'', ''I-Tag'') = ''I-Tag''
    \<and> iob (''MIT'', ''ORGANIZATION'', ''B-Tag'') \<noteq> ''I-Tag'')
   \<and> stanford_chunks
       ([(''Ann'', ''PERSON'', ''B-Tag''), (''and'', ''O'', ''O'')]
        @ (''Jane'', ''PERSON'', ''B-Tag'') # [(''Doe'', ''PERSON'', ''I-Tag'')]
        @ (''MIT'', ''ORGANIZATION'', ''B-Tag'') # [(''Press'', ''ORGANIZATION'', ''I-Tag'')])
     = [(''Ann'', ''PERSON''), (''Jane Doe'', ''PERSON''), (''MIT Press'', ''ORG'')]"
proof -
  have h: "iob (''Jane'', ''PERSON'', ''B-Tag'') = ''B-Tag''
    \<and> (\<forall>c\<in>set [(''Doe'', ''PERSON'', ''I-Tag'')]. iob c = ''I-Tag'')
    \<and> iob (''MIT'', ''ORGANIZATION'', ''B-Tag'') \<noteq> ''I-Tag''"
    by (simp add: iob_def)
  have head_part: "stanford_chunks [(''Ann'', ''PERSON'', ''B-Tag''), (''and'', ''O'', ''O'')]
      = [(''Ann'', ''PERSON'')]"
    by code_simp
  have tail_part: "stanford_chunks
      ((''MIT'', ''ORGANIZATION'', ''B-Tag'') # [(''Press'', ''ORGANIZATION'', ''I-Tag'')])
      = [(''MIT Press'', ''ORG'')]"
    by code_simp
  have mid: "(py_join '' '' (map (strip \<circ> tok)
        ((''Jane'', ''PERSON'', ''B-Tag'') # [(''Doe'', ''PERSON'', ''I-Tag'')])),
      if cat (''Jane'', ''PERSON'', ''B-Tag'') = ''ORGANIZATION'' then ''ORG''
       else cat (''Jane'', ''PERSON'', ''B-Tag'')) = (''Jane Doe'', ''PERSON'')"
    by code_simp
  from chunker_lookahead
    [of "[]" "(''Jane'', ''PERSON'', ''B-Tag'')" "[(''Doe'', ''PERSON'', ''I-Tag'')]"
        "(''MIT'', ''ORGANIZATION'', ''B-Tag'')"
        "[(''Ann'', ''PERSON'', ''B-Tag''), (''and'', ''O'', ''O'')]"
        "[(''Press'', ''ORGANIZATION'', ''I-Tag'')]", THEN conjunct2, rule_format, OF h]
  have "stanford_chunks
       ([(''Ann'', ''PERSON'', ''B-Tag''), (''and'', ''O'', ''O'')]
        @ (''Jane'', ''PERSON'', ''B-Tag'') # [(''Doe'', ''PERSON'', ''I-Tag'')]
        @ (''MIT'', ''ORGANIZATION'', ''B-Tag'') # [(''Press'', ''ORGANIZATION'', ''I-Tag'')])
     = [(''Ann'', ''PERSON''), (''Jane Doe'', ''PERSON''), (''MIT Press'', ''ORG'')]"
    unfolding head_part tail_part mid by simp
  with h show ?thesis by simp
qed

subsection \<open>The category of an entity\<close>

text \<open>
  C5. The categories of the emitted entities are, in order, those of the rows marked
  \<open>B-Tag\<close>: \<open>ORG\<close> where the raw category of the begin row is \<open>ORGANIZATION\<close>, the
  raw category itself, unchanged, everywhere else.
\<close>

theorem chunker_category:
  "map snd (stanford_chunks ne_chunks) =
     map (\<lambda>chunk. if cat chunk = ''ORGANIZATION'' then ''ORG'' else cat chunk)
       (filter (\<lambda>chunk. iob chunk = ''B-Tag'') ne_chunks)"
proof -
  have "map snd (stanford_chunks cs) =
      map (\<lambda>chunk. if cat chunk = ''ORGANIZATION'' then ''ORG'' else cat chunk)
        (filter is_begin cs)" for cs
    by (induction cs) (simp_all add: stanford_chunks_Nil stanford_chunks_Cons entity_of_def)
  moreover have "is_begin = (\<lambda>chunk. iob chunk = ''B-Tag'')"
    by (auto simp add: is_begin_def)
  ultimately show ?thesis by simp
qed

subsection \<open>Inside rows with no begin row\<close>

lemma all_inside_not_preceded:
  "\<forall>x\<in>set pre. is_inside x \<Longrightarrow> \<not> preceded_by_begin pre"
proof -
  assume "\<forall>x\<in>set pre. is_inside x"
  then have d: "dropWhile is_inside (rev pre) = []"
    by simp
  show ?thesis
    unfolding preceded_by_begin_def d by simp
qed

lemma preceded_Cons:
  "preceded_by_begin (p # pre) =
     (if \<forall>x\<in>set pre. is_inside x then is_begin p else preceded_by_begin pre)"
  by (auto simp add: preceded_by_begin_def dropWhile_append begin_not_inside
      split: list.splits)

text \<open>
  C6. A row marked \<open>I-Tag\<close> that no begin row precedes through a run of \<open>I-Tag\<close> rows
  gives nothing to the output: it starts no entity and its token is in no entity, the
  entity list is the one of the input without that row. \<open>pre\<close> is the input before the
  row and \<open>post\<close> the input after it.
\<close>

theorem chunker_ignores_orphan_inside:
  "iob c = ''I-Tag'' \<Longrightarrow> \<not> preceded_by_begin pre \<Longrightarrow>
     stanford_chunks (pre @ c # post) = stanford_chunks (pre @ post)"
proof (induction pre)
  case Nil
  then have "\<not> is_begin c"
    by (simp add: is_begin_def)
  then show ?case
    by (simp add: stanford_chunks_Cons)
next
  case (Cons p pre)
  have np: "\<not> preceded_by_begin pre"
    using Cons.prems(2)
    by (auto simp add: preceded_Cons all_inside_not_preceded split: if_splits)
  have tl: "stanford_chunks (pre @ c # post) = stanford_chunks (pre @ post)"
    using Cons.IH [OF Cons.prems(1) np] .
  show ?case
  proof (cases "is_begin p")
    case True
    then have "\<not> (\<forall>x\<in>set pre. is_inside x)"
      using Cons.prems(2) by (auto simp add: preceded_Cons split: if_splits)
    then have "takeWhile is_inside (pre @ c # post) = takeWhile is_inside (pre @ post)"
      by (auto simp add: takeWhile_append)
    then have "entity_of p (pre @ c # post) = entity_of p (pre @ post)"
      by (simp add: entity_of_run)
    then show ?thesis
      using True tl by (simp add: stanford_chunks_Cons)
  next
    case False
    then show ?thesis
      using tl by (simp add: stanford_chunks_Cons)
  qed
qed

theorem chunker_ignores_orphan_inside_witness:
  "iob (''Corp'', ''ORGANIZATION'', ''I-Tag'') = ''I-Tag''
   \<and> \<not> preceded_by_begin [(''Ann'', ''PERSON'', ''B-Tag''), (''said'', ''O'', ''O''),
         (''Acme'', ''ORGANIZATION'', ''I-Tag'')]
   \<and> stanford_chunks ([(''Ann'', ''PERSON'', ''B-Tag''), (''said'', ''O'', ''O''),
         (''Acme'', ''ORGANIZATION'', ''I-Tag'')]
        @ (''Corp'', ''ORGANIZATION'', ''I-Tag'') # [(''MIT'', ''ORGANIZATION'', ''B-Tag'')])
     = [(''Ann'', ''PERSON''), (''MIT'', ''ORG'')]"
proof -
  have h1: "iob (''Corp'', ''ORGANIZATION'', ''I-Tag'') = ''I-Tag''"
    by (simp add: iob_def)
  have h2: "\<not> preceded_by_begin [(''Ann'', ''PERSON'', ''B-Tag''), (''said'', ''O'', ''O''),
         (''Acme'', ''ORGANIZATION'', ''I-Tag'')]"
    by (simp add: preceded_by_begin_def is_inside_def is_begin_def iob_def)
  have v: "stanford_chunks ([(''Ann'', ''PERSON'', ''B-Tag''), (''said'', ''O'', ''O''),
         (''Acme'', ''ORGANIZATION'', ''I-Tag'')] @ [(''MIT'', ''ORGANIZATION'', ''B-Tag'')])
     = [(''Ann'', ''PERSON''), (''MIT'', ''ORG'')]"
    by code_simp
  from chunker_ignores_orphan_inside [OF h1 h2, of "[(''MIT'', ''ORGANIZATION'', ''B-Tag'')]"]
  have "stanford_chunks ([(''Ann'', ''PERSON'', ''B-Tag''), (''said'', ''O'', ''O''),
         (''Acme'', ''ORGANIZATION'', ''I-Tag'')]
        @ (''Corp'', ''ORGANIZATION'', ''I-Tag'') # [(''MIT'', ''ORGANIZATION'', ''B-Tag'')])
     = [(''Ann'', ''PERSON''), (''MIT'', ''ORG'')]"
    unfolding v .
  with h1 h2 show ?thesis by simp
qed

subsection \<open>Rows of two categories in one entity\<close>

text \<open>
  C3. An entity can span rows of different raw categories: the chunk rule puts a token
  tagged \<open>PERSON\<close> and the token tagged \<open>ORGANIZATION\<close> after it into one chunk, and
  the lookahead tests the marker of a row only, so both tokens end in one entity of
  category \<open>PERSON\<close>.
\<close>

theorem chunker_merges_two_categories:
  "iob_tags False [(''John'', ''PERSON''), (''MIT'', ''ORGANIZATION'')] =
     [(''John'', ''PERSON'', ''B-Tag''), (''MIT'', ''ORGANIZATION'', ''I-Tag'')]
   \<and> stanford_chunks [(''John'', ''PERSON'', ''B-Tag''), (''MIT'', ''ORGANIZATION'', ''I-Tag'')] =
       [(''John MIT'', ''PERSON'')]
   \<and> stanford_ner [(''John'', ''PERSON''), (''MIT'', ''ORGANIZATION'')] =
       [(''John MIT'', ''PERSON'')]"
  by code_simp

section \<open>Properties of the output step\<close>

lemma partition_loop_eq:
  "partition_loop (ns, afs) result =
     (ns @ map fst (filter (\<lambda>e. snd e = ''PERSON'') result),
      afs @ map fst (filter (\<lambda>e. snd e = ''ORG'') result))"
  by (induction result arbitrary: ns afs) (simp_all add: Let_def)

lemma output_lists_eq:
  "output_lists result =
     (sort (map fst (filter (\<lambda>e. snd e = ''PERSON'') result)),
      sort (map fst (filter (\<lambda>e. snd e = ''ORG'') result)))"
  by (simp add: output_lists_def partition_loop_eq)

lemma count_list_sort: "count_list (sort xs) t = count_list xs t"
  by (simp add: count_mset [symmetric])

lemma count_map_fst_filter:
  "count_list (map fst (filter (\<lambda>e. snd e = k) result)) t =
     length (filter (\<lambda>e. e = (t, k)) result)"
  by (induction result) (auto simp add: prod_eq_iff)

lemma partition_keeps_all:
  "\<forall>e\<in>set result. snd e = ''PERSON'' \<or> snd e = ''ORG'' \<Longrightarrow>
     length (fst (output_lists result)) + length (snd (output_lists result)) = length result"
  by (induction result) (auto simp add: output_lists_eq)

text \<open>
  C7. The output step gives the pair (names, affiliations). Both lists are sorted in
  ascending lexicographic order. As multisets, names holds the texts of the entities
  of category \<open>PERSON\<close> and affiliations those of category \<open>ORG\<close>: entities of any
  other category are dropped and nothing else is lost or added. A text \<open>t\<close> is in names
  as many times as the input has the entity \<open>(t, PERSON)\<close>, and in affiliations as many
  times as it has \<open>(t, ORG)\<close>: duplicates stay.
\<close>

theorem output_partition:
  "sorted (fst (output_lists result)) \<and> sorted (snd (output_lists result))
   \<and> mset (fst (output_lists result)) =
       image_mset fst (filter_mset (\<lambda>e. snd e = ''PERSON'') (mset result))
   \<and> mset (snd (output_lists result)) =
       image_mset fst (filter_mset (\<lambda>e. snd e = ''ORG'') (mset result))
   \<and> count_list (fst (output_lists result)) t =
       length (filter (\<lambda>e. e = (t, ''PERSON'')) result)
   \<and> count_list (snd (output_lists result)) t =
       length (filter (\<lambda>e. e = (t, ''ORG'')) result)"
  by (simp add: output_lists_eq count_list_sort count_map_fst_filter)

text \<open>The example of the specification, with a duplicate and an entity of another category.\<close>

lemma output_lists_example:
  "output_lists [(''Jane Doe'', ''PERSON''), (''MIT'', ''ORG''), (''Ann'', ''PERSON''),
                 (''Paris'', ''GPE''), (''Ann'', ''PERSON'')] =
     ([''Ann'', ''Ann'', ''Jane Doe''], [''MIT''])"
  by code_simp

section \<open>Properties of the two engines' outputs\<close>

lemma spacy_loop_eq:
  "spacy_loop acc ents =
     acc @ map (\<lambda>c. (strip (fst c), snd c))
             (filter (\<lambda>c. snd c = ''ORG'' \<or> snd c = ''PERSON'') ents)"
  by (induction ents arbitrary: acc) simp_all

lemma spacy_ner_labels:
  "e \<in> set (spacy_ner ents) \<Longrightarrow> snd e = ''PERSON'' \<or> snd e = ''ORG''"
  by (auto simp add: spacy_ner_def spacy_loop_eq)

lemma stanford_chunks_labels:
  assumes "\<forall>c\<in>set cs. iob c = ''B-Tag'' \<or> iob c = ''I-Tag'' \<longrightarrow>
             cat c = ''ORGANIZATION'' \<or> cat c = ''PERSON''"
  shows "\<forall>e\<in>set (stanford_chunks cs). snd e = ''PERSON'' \<or> snd e = ''ORG''"
proof -
  have "set (map snd (stanford_chunks cs)) \<subseteq> {''PERSON'', ''ORG''}"
    using assms
    by (induction cs)
      (auto simp add: stanford_chunks_Nil stanford_chunks_Cons entity_of_def is_begin_def)
  then show ?thesis by auto
qed

lemma tagger_labels_match:
  assumes "t \<in> set tagger_labels" and "tag_matches t"
  shows "t = ''ORGANIZATION'' \<or> t = ''PERSON''"
proof -
  from assms(1) have "t = ''PERSON'' \<or> t = ''ORGANIZATION'' \<or> t = ''LOCATION''
      \<or> t = ''DATE'' \<or> t = ''TIME'' \<or> t = ''MONEY'' \<or> t = ''PERCENT'' \<or> t = ''O''"
    unfolding tagger_labels_def by simp
  moreover have "\<not> tag_matches ''LOCATION''" "\<not> tag_matches ''DATE''"
    "\<not> tag_matches ''TIME''" "\<not> tag_matches ''MONEY''" "\<not> tag_matches ''PERCENT''"
    "\<not> tag_matches ''O''"
    by (simp_all add: tag_matches_def)
  ultimately show ?thesis
    using assms(2) by blast
qed

lemma iob_tags_rows:
  "c \<in> set (iob_tags inside toks) \<Longrightarrow>
     cat c \<in> snd ` set toks \<and> (iob c = ''B-Tag'' \<or> iob c = ''I-Tag'' \<longrightarrow> tag_matches (cat c))"
proof (induction toks arbitrary: inside)
  case Nil
  then show ?case by simp
next
  case (Cons wt toks)
  obtain w t where wt: "wt = (w, t)"
    by (cases wt)
  show ?case
  proof (cases "c \<in> set (iob_tags True toks) \<or> c \<in> set (iob_tags False toks)")
    case True
    then have "cat c \<in> snd ` set toks
        \<and> (iob c = ''B-Tag'' \<or> iob c = ''I-Tag'' \<longrightarrow> tag_matches (cat c))"
      using Cons.IH by blast
    then show ?thesis by auto
  next
    case False
    then have "c = (w, t, if inside then ''I-Tag'' else ''B-Tag'') \<and> tag_matches t
        \<or> c = (w, t, ''O'') \<and> \<not> tag_matches t"
      using Cons.prems by (auto simp add: wt split: if_splits)
    then show ?thesis
      by (auto simp add: wt cat_def iob_def)
  qed
qed

text \<open>
  C9. Every entity of \<open>spacy_ner\<close> has the category \<open>PERSON\<close> or \<open>ORG\<close>: the loop keeps
  the spans with these two labels, all of them and no other. Every entity of the
  chunker of \<open>stanford_ner\<close> has the category \<open>PERSON\<close> or \<open>ORG\<close> when the tags are
  labels of the tagger and only rows tagged \<open>ORGANIZATION\<close> or with the prefix
  \<open>PERSON\<close> are in a chunk (marked \<open>B-Tag\<close> or \<open>I-Tag\<close>); with the chunk rule in front,
  it is so for every output of the tagger. On these outputs the output step drops no
  entity: names and affiliations together are as many as the entities.
\<close>

theorem ner_categories:
  "(\<forall>e\<in>set (spacy_ner ents). snd e = ''PERSON'' \<or> snd e = ''ORG'')
   \<and> map snd (spacy_ner ents) = filter (\<lambda>l. l = ''ORG'' \<or> l = ''PERSON'') (map snd ents)
   \<and> length (fst (output_lists (spacy_ner ents))) + length (snd (output_lists (spacy_ner ents)))
       = length (spacy_ner ents)
   \<and> ((\<forall>c\<in>set ne_chunks. cat c \<in> set tagger_labels
          \<and> (iob c = ''B-Tag'' \<or> iob c = ''I-Tag'' \<longrightarrow> tag_matches (cat c))) \<longrightarrow>
        (\<forall>e\<in>set (stanford_chunks ne_chunks). snd e = ''PERSON'' \<or> snd e = ''ORG'')
        \<and> length (fst (output_lists (stanford_chunks ne_chunks)))
            + length (snd (output_lists (stanford_chunks ne_chunks)))
          = length (stanford_chunks ne_chunks))
   \<and> ((\<forall>t\<in>set ne_tokenchunks. snd t \<in> set tagger_labels) \<longrightarrow>
        (\<forall>e\<in>set (stanford_ner ne_tokenchunks). snd e = ''PERSON'' \<or> snd e = ''ORG'')
        \<and> length (fst (output_lists (stanford_ner ne_tokenchunks)))
            + length (snd (output_lists (stanford_ner ne_tokenchunks)))
          = length (stanford_ner ne_tokenchunks))"
proof (intro conjI impI)
  show sp: "\<forall>e\<in>set (spacy_ner ents). snd e = ''PERSON'' \<or> snd e = ''ORG''"
    by (simp add: spacy_ner_labels)
  show "map snd (spacy_ner ents) = filter (\<lambda>l. l = ''ORG'' \<or> l = ''PERSON'') (map snd ents)"
    by (simp add: spacy_ner_def spacy_loop_eq filter_map comp_def)
  show "length (fst (output_lists (spacy_ner ents)))
      + length (snd (output_lists (spacy_ner ents))) = length (spacy_ner ents)"
    using sp by (rule partition_keeps_all)
next
  assume h: "\<forall>c\<in>set ne_chunks. cat c \<in> set tagger_labels
      \<and> (iob c = ''B-Tag'' \<or> iob c = ''I-Tag'' \<longrightarrow> tag_matches (cat c))"
  have "\<forall>c\<in>set ne_chunks. iob c = ''B-Tag'' \<or> iob c = ''I-Tag'' \<longrightarrow>
      cat c = ''ORGANIZATION'' \<or> cat c = ''PERSON''"
    using h tagger_labels_match by blast
  then show st: "\<forall>e\<in>set (stanford_chunks ne_chunks). snd e = ''PERSON'' \<or> snd e = ''ORG''"
    by (rule stanford_chunks_labels)
  then show "length (fst (output_lists (stanford_chunks ne_chunks)))
      + length (snd (output_lists (stanford_chunks ne_chunks)))
      = length (stanford_chunks ne_chunks)"
    by (rule partition_keeps_all)
next
  assume h: "\<forall>t\<in>set ne_tokenchunks. snd t \<in> set tagger_labels"
  have "\<forall>c\<in>set (iob_tags False ne_tokenchunks). iob c = ''B-Tag'' \<or> iob c = ''I-Tag'' \<longrightarrow>
      cat c = ''ORGANIZATION'' \<or> cat c = ''PERSON''"
  proof (intro ballI impI)
    fix c
    assume c: "c \<in> set (iob_tags False ne_tokenchunks)"
      and g: "iob c = ''B-Tag'' \<or> iob c = ''I-Tag''"
    from iob_tags_rows [OF c] g h
    have "cat c \<in> set tagger_labels" and "tag_matches (cat c)"
      by auto
    then show "cat c = ''ORGANIZATION'' \<or> cat c = ''PERSON''"
      by (rule tagger_labels_match)
  qed
  then show st: "\<forall>e\<in>set (stanford_ner ne_tokenchunks). snd e = ''PERSON'' \<or> snd e = ''ORG''"
    unfolding stanford_ner_def by (rule stanford_chunks_labels)
  then show "length (fst (output_lists (stanford_ner ne_tokenchunks)))
      + length (snd (output_lists (stanford_ner ne_tokenchunks)))
      = length (stanford_ner ne_tokenchunks)"
    by (rule partition_keeps_all)
qed

theorem ner_categories_witness:
  "list_all (\<lambda>c. cat c \<in> set tagger_labels
        \<and> (iob c \<noteq> ''B-Tag'' \<and> iob c \<noteq> ''I-Tag'' \<or> tag_matches (cat c)))
     [(''Jane'', ''PERSON'', ''B-Tag''), (''in'', ''O'', ''O''),
      (''Paris'', ''LOCATION'', ''O''), (''MIT'', ''ORGANIZATION'', ''B-Tag'')]
   \<and> stanford_chunks [(''Jane'', ''PERSON'', ''B-Tag''), (''in'', ''O'', ''O''),
        (''Paris'', ''LOCATION'', ''O''), (''MIT'', ''ORGANIZATION'', ''B-Tag'')]
       = [(''Jane'', ''PERSON''), (''MIT'', ''ORG'')]
   \<and> list_all (\<lambda>e. snd e = ''PERSON'' \<or> snd e = ''ORG'')
       (stanford_chunks [(''Jane'', ''PERSON'', ''B-Tag''), (''in'', ''O'', ''O''),
          (''Paris'', ''LOCATION'', ''O''), (''MIT'', ''ORGANIZATION'', ''B-Tag'')])
   \<and> list_all (\<lambda>t. snd t \<in> set tagger_labels)
       [(''Jane'', ''PERSON''), (''in'', ''O''), (''Paris'', ''LOCATION''),
        (''MIT'', ''ORGANIZATION'')]
   \<and> stanford_ner [(''Jane'', ''PERSON''), (''in'', ''O''), (''Paris'', ''LOCATION''),
        (''MIT'', ''ORGANIZATION'')]
       = [(''Jane'', ''PERSON''), (''MIT'', ''ORG'')]
   \<and> list_all (\<lambda>e. snd e = ''PERSON'' \<or> snd e = ''ORG'')
       (stanford_ner [(''Jane'', ''PERSON''), (''in'', ''O''), (''Paris'', ''LOCATION''),
          (''MIT'', ''ORGANIZATION'')])
   \<and> spacy_ner [(''Jane'', ''PERSON''), (''Paris'', ''GPE''), (''MIT'', ''ORG'')]
       = [(''Jane'', ''PERSON''), (''MIT'', ''ORG'')]
   \<and> list_all (\<lambda>e. snd e = ''PERSON'' \<or> snd e = ''ORG'')
       (spacy_ner [(''Jane'', ''PERSON''), (''Paris'', ''GPE''), (''MIT'', ''ORG'')])"
proof -
  let ?cs = "[(''Jane'', ''PERSON'', ''B-Tag''), (''in'', ''O'', ''O''),
              (''Paris'', ''LOCATION'', ''O''), (''MIT'', ''ORGANIZATION'', ''B-Tag'')]"
  let ?toks = "[(''Jane'', ''PERSON''), (''in'', ''O''), (''Paris'', ''LOCATION''),
                (''MIT'', ''ORGANIZATION'')]"
  let ?ents = "[(''Jane'', ''PERSON''), (''Paris'', ''GPE''), (''MIT'', ''ORG'')]"
  have h1: "\<forall>c\<in>set ?cs. cat c \<in> set tagger_labels
      \<and> (iob c = ''B-Tag'' \<or> iob c = ''I-Tag'' \<longrightarrow> tag_matches (cat c))"
    by (simp add: iob_def cat_def tagger_labels_def tag_matches_def)
  have h2: "\<forall>t\<in>set ?toks. snd t \<in> set tagger_labels"
    by (simp add: tagger_labels_def)
  have v1: "stanford_chunks ?cs = [(''Jane'', ''PERSON''), (''MIT'', ''ORG'')]"
    by code_simp
  have v2: "stanford_ner ?toks = [(''Jane'', ''PERSON''), (''MIT'', ''ORG'')]"
    by code_simp
  have v3: "spacy_ner ?ents = [(''Jane'', ''PERSON''), (''MIT'', ''ORG'')]"
    by code_simp
  from ner_categories [of ?ents ?cs ?toks] h1 h2
  have "list_all (\<lambda>e. snd e = ''PERSON'' \<or> snd e = ''ORG'') (stanford_chunks ?cs)
      \<and> list_all (\<lambda>e. snd e = ''PERSON'' \<or> snd e = ''ORG'') (stanford_ner ?toks)
      \<and> list_all (\<lambda>e. snd e = ''PERSON'' \<or> snd e = ''ORG'') (spacy_ner ?ents)"
    unfolding list_all_iff by blast
  moreover have "list_all (\<lambda>c. cat c \<in> set tagger_labels
        \<and> (iob c \<noteq> ''B-Tag'' \<and> iob c \<noteq> ''I-Tag'' \<or> tag_matches (cat c))) ?cs"
    using h1 unfolding list_all_iff by blast
  moreover have "list_all (\<lambda>t. snd t \<in> set tagger_labels) ?toks"
    using h2 unfolding list_all_iff .
  ultimately show ?thesis
    using v1 v2 v3 by blast
qed

section \<open>Properties of the program\<close>

text \<open>
  What the program does keep: when the validity check of the main block rejects the
  parsed URL, or when the page that was fetched has no \<open>div\<close> of class \<open>cfp\<close>, it ends
  with exit status 0 and its whole output is the line \<open>Please enter a valid URL\<close>.
\<close>

lemma rejected_or_no_section_exit:
  "\<not> py_in ''wikicfp.com'' (as_tuple url) \<or> page_of env url = NoCfpDiv \<Longrightarrow>
     main_prog env url model = Exited 0 (''Please enter a valid URL'' @ [CHR 0x0A])"
  by (auto simp add: main_prog_def url_check_def py_print_def newline_def)

text \<open>
  C8. Not every invalid URL ends the program with the message and exit status 0. The
  argument \<open>wikicfp.com\<close> has no scheme; \<open>urlparse\<close> puts the whole of it in the path,
  so a component equals \<open>wikicfp.com\<close> and the validity check lets it through. The
  request for a URL with no scheme raises an exception that is not \<open>AttributeError\<close>;
  nothing catches it, and the process ends with status 1 and has printed nothing. An
  argument that \<open>urlparse\<close> itself refuses ends the program the same way, before the
  check.
\<close>

theorem invalid_url_uncaught:
  "url_check \<lparr>scheme = [], netloc = [], path = ''wikicfp.com'', params = [], query = [],
              fragment = []\<rparr> = None
   \<and> main_prog
        \<lparr>page_of = (\<lambda>u. RequestFailed), spacy_ents = (\<lambda>t. []), stanford_tags = (\<lambda>t. [])\<rparr>
        \<lparr>scheme = [], netloc = [], path = ''wikicfp.com'', params = [], query = [],
         fragment = []\<rparr> ''m1'' = Uncaught
   \<and> exit_status (main_prog
        \<lparr>page_of = (\<lambda>u. RequestFailed), spacy_ents = (\<lambda>t. []), stanford_tags = (\<lambda>t. [])\<rparr>
        \<lparr>scheme = [], netloc = [], path = ''wikicfp.com'', params = [], query = [],
         fragment = []\<rparr> ''m1'') = 1
   \<and> stdout_of (main_prog
        \<lparr>page_of = (\<lambda>u. RequestFailed), spacy_ents = (\<lambda>t. []), stanford_tags = (\<lambda>t. [])\<rparr>
        \<lparr>scheme = [], netloc = [], path = ''wikicfp.com'', params = [], query = [],
         fragment = []\<rparr> ''m1'') = []
   \<and> main_cli
        (\<lambda>s. if s = ''wikicfp.com''
              then Some \<lparr>scheme = [], netloc = [], path = ''wikicfp.com'', params = [],
                         query = [], fragment = []\<rparr>
              else None)
        \<lparr>page_of = (\<lambda>u. RequestFailed), spacy_ents = (\<lambda>t. []), stanford_tags = (\<lambda>t. [])\<rparr>
        ''wikicfp.com'' ''m1'' = Uncaught
   \<and> exit_status (main_cli (\<lambda>s. None)
        \<lparr>page_of = (\<lambda>u. NoCfpDiv), spacy_ents = (\<lambda>t. []), stanford_tags = (\<lambda>t. [])\<rparr>
        ''http://[wikicfp.com'' ''m1'') = 1"
  by (simp add: main_prog_def main_cli_def url_check_def as_tuple_def)

text \<open>
  C10. The validity check lets the program go on exactly when one of the six components
  of the parsed URL is the string \<open>wikicfp.com\<close>, the whole component and not a part
  of it; otherwise it ends the program with the message. So a URL whose network
  location is \<open>www.wikicfp.com\<close>, with no component equal to \<open>wikicfp.com\<close>, is
  rejected with the message and exit status 0.
\<close>

theorem url_check_components:
  "url_check url =
     (if scheme url = ''wikicfp.com'' \<or> netloc url = ''wikicfp.com''
         \<or> path url = ''wikicfp.com'' \<or> params url = ''wikicfp.com''
         \<or> query url = ''wikicfp.com'' \<or> fragment url = ''wikicfp.com''
      then None
      else Some (Exited 0 (''Please enter a valid URL'' @ [CHR 0x0A])))
   \<and> (netloc url = ''www.wikicfp.com'' \<and> scheme url \<noteq> ''wikicfp.com''
        \<and> path url \<noteq> ''wikicfp.com'' \<and> params url \<noteq> ''wikicfp.com''
        \<and> query url \<noteq> ''wikicfp.com'' \<and> fragment url \<noteq> ''wikicfp.com'' \<longrightarrow>
      main_prog env url model = Exited 0 (''Please enter a valid URL'' @ [CHR 0x0A]))"
  by (auto simp add: main_prog_def url_check_def as_tuple_def py_print_def newline_def)

theorem url_check_components_witness:
  "url_check \<lparr>scheme = ''http'', netloc = ''www.wikicfp.com'',
        path = ''/cfp/servlet/event.showcfp'', params = [], query = ''eventid=1'',
        fragment = []\<rparr>
     = Some (Exited 0 (''Please enter a valid URL'' @ [CHR 0x0A]))
   \<and> main_prog
        \<lparr>page_of = (\<lambda>u. CfpDiv [''Chair: Jane Doe'']),
         spacy_ents = (\<lambda>t. [(''Jane Doe'', ''PERSON'')]), stanford_tags = (\<lambda>t. [])\<rparr>
        \<lparr>scheme = ''http'', netloc = ''www.wikicfp.com'',
         path = ''/cfp/servlet/event.showcfp'', params = [], query = ''eventid=1'',
         fragment = []\<rparr> ''m1''
     = Exited 0 (''Please enter a valid URL'' @ [CHR 0x0A])
   \<and> url_check \<lparr>scheme = ''http'', netloc = ''wikicfp.com'',
        path = ''/cfp/servlet/event.showcfp'', params = [], query = ''eventid=1'',
        fragment = []\<rparr> = None"
  using url_check_components
      [of "\<lparr>scheme = ''http'', netloc = ''www.wikicfp.com'',
            path = ''/cfp/servlet/event.showcfp'', params = [], query = ''eventid=1'',
            fragment = []\<rparr>"
          "\<lparr>page_of = (\<lambda>u. CfpDiv [''Chair: Jane Doe'']),
            spacy_ents = (\<lambda>t. [(''Jane Doe'', ''PERSON'')]), stanford_tags = (\<lambda>t. [])\<rparr>"
          "''m1''"]
    url_check_components
      [of "\<lparr>scheme = ''http'', netloc = ''wikicfp.com'',
            path = ''/cfp/servlet/event.showcfp'', params = [], query = ''eventid=1'',
            fragment = []\<rparr>"]
  by simp

text \<open>A run of the whole program on a page with a \<open>cfp\<close> section, first engine.\<close>

lemma main_prog_example:
  "main_prog
     \<lparr>page_of = (\<lambda>u. CfpDiv [''Chair: '', ''Jane Doe'']),
      spacy_ents = (\<lambda>t. [(''Jane Doe'', ''PERSON''), (''MIT'', ''ORG'')]),
      stanford_tags = (\<lambda>t. [])\<rparr>
     \<lparr>scheme = ''http'', netloc = ''wikicfp.com'', path = ''/cfp'', params = [],
      query = [], fragment = []\<rparr> ''m1''
   = Exited 0 (''***Names***'' @ [CHR 0x0A] @ '' Jane Doe '' @ [CHR 0x0A, CHR 0x0A]
               @ ''***Affiliations***'' @ [CHR 0x0A] @ '' MIT'' @ [CHR 0x0A])"
  by (simp add: main_prog_def url_check_def as_tuple_def py_print_def newline_def
      spacy_ner_def output_lists_def strip_def py_isspace_def ascii_ignore_def
      replace_char_def)

text \<open>A run with the second engine on a \<open>cfp\<close> section with no text: the parser's line comes first.\<close>

lemma main_prog_empty_text_example:
  "main_prog
     \<lparr>page_of = (\<lambda>u. CfpDiv []), spacy_ents = (\<lambda>t. []), stanford_tags = (\<lambda>t. [])\<rparr>
     \<lparr>scheme = ''http'', netloc = ''wikicfp.com'', path = ''/cfp'', params = [],
      query = [], fragment = []\<rparr> ''m2''
   = Exited 0 (''Warning: parsing empty text'' @ [CHR 0x0A]
               @ ''***Names***'' @ [CHR 0x0A] @ ''  '' @ [CHR 0x0A, CHR 0x0A]
               @ ''***Affiliations***'' @ [CHR 0x0A] @ '' '' @ [CHR 0x0A])"
  by (simp add: main_prog_def url_check_def as_tuple_def py_print_def newline_def
      parse_warning_def stanford_ner_def stanford_chunks_def output_lists_def strip_def
      ascii_ignore_def replace_char_def)

end
